theory Spec2Isabelle
  imports Main "HOL-Library.AList"
begin

section \<open>Values, field descriptors and schemas of jsonmapper\<close>

text \<open>
  Python objects that the library handles.  Mutable containers (lists and dicts) live in
  a store and are referred to by address, because the library shares them: a record's
  backing dict, the raw list behind a sequence view.  Immutable values are carried
  directly.  A \<open>Mapping\<close> instance is its class together with the address of its
  \<open>_data\<close> dict (the attribute is assigned once, in \<open>__init__\<close>); a
  \<open>ListField.Proxy\<close> is the wrapped object together with the element field.
  Date and time values are naive (no time zone).  Floats, \<open>Decimal\<close> and
  \<open>struct_time\<close> values are outside this value universe.

  A field descriptor is an object with identity: \<open>field_id\<close> is its address, and its
  \<open>name\<close> attribute, which \<open>MappingMeta.__new__\<close> assigns, lives in the store under that
  address.  The class it is an instance of (\<open>kind\<close>) and its \<open>default\<close> never change
  and are carried with the reference.  A default is a plain value, or one of the
  callables that occur: a caller-supplied zero-argument producer (deterministic, returning
  the given value), the closure \<open>lambda: default.copy()\<close> of \<open>DictField.__init__\<close>
  and the closure \<open>lambda: copy.copy(default)\<close> of \<open>ListField.__init__\<close>, each with
  the \<open>default\<close> it captured.

  A class made by \<open>MappingMeta\<close> is given by its name, the bases it lists (other than
  \<open>Mapping\<close> itself, which every such class reaches and which comes last among them in
  the method resolution order), its body \<open>dct\<close> and the \<open>_fields\<close> table the metaclass
  computed for it.  An entry of a class body is a \<open>Field\<close> instance, or anything else
  (a method, a constant).  Two classes are the same class when these four agree.
\<close>

type_synonym addr = nat

datatype pyval =
    VNone
  | VBool bool
  | VInt int
  | VStr string
  | VDate nat nat nat
  | VTime nat nat nat nat
  | VDateTime nat nat nat nat nat nat nat
  | VList addr
  | VDict addr
  | VRecord cls addr
  | VProxy pyval field
and field = Field (field_id: addr) (field_kind: kind) (field_default: dflt)
and kind =
    KField | KText | KFloat | KInteger | KLong | KBoolean | KDecimal
  | KDate | KDateTime | KTime
  | KDict "cls option"
  | KList field
and dflt =
    DValue pyval
  | DProducer pyval
  | DDictCopy pyval
  | DListCopy pyval
and cls = Cls (cls_name: string) (cls_bases: "cls list")
              (cls_dict: "(string \<times> attr) list") (cls_fields: "(string \<times> field) list")
and attr = AField field | AOther

datatype error = TypeError | ValueError | AttributeError | KeyError | IndexError | Unmodelled

section \<open>The store\<close>

text \<open>
  Lists, dicts and field descriptors are objects with identity.  The store maps an address
  to the current contents of the list, or dict, allocated there, and to the current
  \<open>name\<close> of the field descriptor allocated there; allocation takes the next unused
  address of its kind.
\<close>

record heap =
  heap_lists :: "addr \<Rightarrow> pyval list"
  heap_dicts :: "addr \<Rightarrow> (string \<times> pyval) list"
  heap_names :: "addr \<Rightarrow> string option"
  list_top :: addr
  dict_top :: addr
  field_top :: addr

type_synonym 'a result = "(error + 'a) \<times> heap"

definition new_list :: "pyval list \<Rightarrow> heap \<Rightarrow> addr \<times> heap" where
  "new_list xs h =
     (list_top h, h\<lparr>heap_lists := (heap_lists h)(list_top h := xs), list_top := Suc (list_top h)\<rparr>)"

definition new_dict :: "(string \<times> pyval) list \<Rightarrow> heap \<Rightarrow> addr \<times> heap" where
  "new_dict d h =
     (dict_top h, h\<lparr>heap_dicts := (heap_dicts h)(dict_top h := d), dict_top := Suc (dict_top h)\<rparr>)"


definition set_dict :: "addr \<Rightarrow> (string \<times> pyval) list \<Rightarrow> heap \<Rightarrow> heap" where
  "set_dict a d h = h\<lparr>heap_dicts := (heap_dicts h)(a := d)\<rparr>"

definition set_name :: "addr \<Rightarrow> string option \<Rightarrow> heap \<Rightarrow> heap" where
  "set_name a n h = h\<lparr>heap_names := (heap_names h)(a := n)\<rparr>"

definition empty_heap :: heap where
  "empty_heap = \<lparr>heap_lists = (\<lambda>_. []), heap_dicts = (\<lambda>_. []), heap_names = (\<lambda>_. None),
                  list_top = 0, dict_top = 0, field_top = 0\<rparr>"

text \<open>\<open>Field.__init__(self, name=None, default=None)\<close> on a new instance of the class
  \<open>k\<close>, and \<open>self.name\<close>.\<close>

definition Field_init :: "kind \<Rightarrow> string option \<Rightarrow> dflt \<Rightarrow> heap \<Rightarrow> field \<times> heap" where
  "Field_init k name default_arg h =
     (Field (field_top h) k default_arg,
      h\<lparr>heap_names := (heap_names h)(field_top h := name), field_top := Suc (field_top h)\<rparr>)"

definition field_name :: "heap \<Rightarrow> field \<Rightarrow> string option" where
  "field_name h f = heap_names h (field_id f)"

section \<open>The schema registry: \<open>MappingMeta.__new__\<close>\<close>

text \<open>
  A Python dict is an association list with distinct keys in insertion order;
  \<open>d[k] = v\<close> is \<^const>\<open>AList.update\<close> (replace in place, else append) and
  \<open>d.update(e)\<close> stores the items of \<open>e\<close> one after the other.
\<close>

definition dict_update :: "(string \<times> 'v) list \<Rightarrow> (string \<times> 'v) list \<Rightarrow> (string \<times> 'v) list" where
  "dict_update d e = fold (\<lambda>(k, v). AList.update k v) e d"

text \<open>\<open>not field_value.name\<close>: the name is \<open>None\<close> or the empty string.\<close>

definition name_unset :: "string option \<Rightarrow> bool" where
  "name_unset n = (case n of None \<Rightarrow> True | Some s \<Rightarrow> s = [])"

text \<open>The first loop: \<open>getattr(base, '_fields', {})\<close> of a class made by the metaclass is the
  table stored at its creation.\<close>

fun inherit_fields :: "cls list \<Rightarrow> (string \<times> field) list \<Rightarrow> (string \<times> field) list" where
  "inherit_fields [] flds = flds"
| "inherit_fields (base # bases) flds = inherit_fields bases (dict_update flds (cls_fields base))"

text \<open>The second loop, over the items of the class body.  Assigning \<open>field_value.name\<close>
  changes the descriptor object itself, so that a later item holding the same object
  finds the name set.\<close>

fun declare_fields ::
    "(string \<times> attr) list \<Rightarrow> (string \<times> field) list \<Rightarrow> heap \<Rightarrow> (string \<times> field) list \<times> heap" where
  "declare_fields [] flds h = (flds, h)"
| "declare_fields ((attr_name, AField field_value) # dct) flds h =
     declare_fields dct (AList.update attr_name field_value flds)
       (if name_unset (field_name h field_value)
        then set_name (field_id field_value) (Some attr_name) h else h)"
| "declare_fields ((attr_name, AOther) # dct) flds h = declare_fields dct flds h"

subsection \<open>Method resolution order\<close>

text \<open>
  \<open>type.__new__\<close>, which the metaclass calls, linearises the ancestors of the new class
  (the C3 merge of the bases' linearisations and of the list of bases) and refuses the
  class when there is no consistent order.  Attribute lookup on a class, and on its
  instances, walks that order and takes the first class whose body has the name.
\<close>

fun remove_head :: "'a \<Rightarrow> 'a list \<Rightarrow> 'a list" where
  "remove_head c [] = []"
| "remove_head c (x # xs) = (if x = c then xs else x # xs)"

definition good_head :: "'a list list \<Rightarrow> 'a \<Rightarrow> bool" where
  "good_head ls c = list_all (\<lambda>l. c \<notin> set (tl l)) ls"

definition nonempty :: "'a list list \<Rightarrow> 'a list list" where
  "nonempty ls = filter (\<lambda>l. l \<noteq> []) ls"

lemma remove_head_length: "length (remove_head c l) \<le> length l"
  by (cases l) simp_all

lemma remove_head_hd: "l \<noteq> [] \<Longrightarrow> length (remove_head (hd l) l) < length l"
  by (cases l) simp_all

lemma remove_head_sum: "sum_list (map (\<lambda>l. length (remove_head c l)) ls) \<le> sum_list (map length ls)"
  by (induction ls) (simp_all add: add_mono remove_head_length)

lemma remove_head_sum_less:
  "l \<in> set ls \<Longrightarrow> l \<noteq> [] \<Longrightarrow> hd l = c \<Longrightarrow>
   sum_list (map (\<lambda>l. length (remove_head c l)) ls) < sum_list (map length ls)"
proof (induction ls)
  case Nil
  then show ?case by simp
next
  case (Cons x xs)
  show ?case
  proof (cases "x = l")
    case True
    with Cons.prems have "length (remove_head c x) < length x" using remove_head_hd [of l] by simp
    moreover have "sum_list (map (\<lambda>l. length (remove_head c l)) xs) \<le> sum_list (map length xs)"
      by (rule remove_head_sum)
    ultimately show ?thesis by simp
  next
    case False
    with Cons have "sum_list (map (\<lambda>l. length (remove_head c l)) xs) < sum_list (map length xs)" by simp
    moreover have "length (remove_head c x) \<le> length x" by (rule remove_head_length)
    ultimately show ?thesis by simp
  qed
qed

lemma nonempty_sum: "sum_list (map length (nonempty ls)) = sum_list (map length ls)"
  by (induction ls) (simp_all add: nonempty_def)

lemma c3_merge_decreases:
  assumes "find P (map hd (nonempty ls)) = Some c"
  shows "sum_list (map length (map (remove_head c) (nonempty ls))) < sum_list (map length ls)"
proof -
  from assms have "c \<in> set (map hd (nonempty ls))"
    by (auto simp: find_Some_iff)
  then obtain l where "l \<in> set (nonempty ls)" "hd l = c" by auto
  moreover from this have "l \<noteq> []" by (simp add: nonempty_def)
  ultimately have "sum_list (map (\<lambda>l. length (remove_head c l)) (nonempty ls)) < sum_list (map length (nonempty ls))"
    by (metis remove_head_sum_less)
  then show ?thesis by (simp add: nonempty_sum comp_def)
qed

function c3_merge :: "'a list list \<Rightarrow> 'a list option" where
  "c3_merge ls =
     (if nonempty ls = [] then Some []
      else (case find (good_head (nonempty ls)) (map hd (nonempty ls)) of
              None \<Rightarrow> None
            | Some c \<Rightarrow>
                (case c3_merge (map (remove_head c) (nonempty ls)) of
                   None \<Rightarrow> None
                 | Some r \<Rightarrow> Some (c # r))))"
  by pat_completeness auto

termination c3_merge
  apply (relation "measure (\<lambda>ls. sum_list (map length ls))")
  subgoal by simp
  subgoal for ls c using c3_merge_decreases [of "good_head (nonempty ls)" ls c] by simp
  done

declare c3_merge.simps [simp del]

function mro :: "cls \<Rightarrow> cls list option" and mro_list :: "cls list \<Rightarrow> cls list list option" where
  "mro c =
     (case mro_list (cls_bases c) of
        None \<Rightarrow> None
      | Some ms \<Rightarrow>
          (case c3_merge (ms @ [cls_bases c]) of
             None \<Rightarrow> None
           | Some r \<Rightarrow> Some (c # r)))"
| "mro_list [] = Some []"
| "mro_list (b # bs) =
     (case mro b of
        None \<Rightarrow> None
      | Some m \<Rightarrow> (case mro_list bs of None \<Rightarrow> None | Some ms \<Rightarrow> Some (m # ms)))"
  by pat_completeness auto

lemma size_cls_bases: "size_list size (cls_bases c) < size c"
  by (cases c) simp

termination mro
  apply (relation "measure (\<lambda>x. case x of Inl c \<Rightarrow> 2 * size c | Inr bs \<Rightarrow> 2 * size_list size bs + 1)")
  subgoal by simp
  subgoal for c using size_cls_bases [of c] by simp
  subgoal by simp
  subgoal by simp
  done

declare mro.simps [simp del]

fun lookup_in :: "cls list \<Rightarrow> string \<Rightarrow> attr option" where
  "lookup_in [] n = None"
| "lookup_in (d # ds) n = (case map_of (cls_dict d) n of Some a \<Rightarrow> Some a | None \<Rightarrow> lookup_in ds n)"

definition class_lookup :: "cls \<Rightarrow> string \<Rightarrow> attr option" where
  "class_lookup c n = (case mro c of None \<Rightarrow> None | Some ms \<Rightarrow> lookup_in ms n)"

text \<open>\<open>MappingMeta.__new__(mcs, name, bases, dct)\<close>.  The names are assigned before
  \<open>type.__new__\<close> can refuse the class.\<close>

definition MappingMeta_new :: "string \<Rightarrow> cls list \<Rightarrow> (string \<times> attr) list \<Rightarrow> heap \<Rightarrow> cls result" where
  "MappingMeta_new name bases dct h =
     (case declare_fields dct (inherit_fields bases []) h of
        (flds, h') \<Rightarrow>
          (case mro (Cls name bases dct flds) of
             None \<Rightarrow> (Inl TypeError, h')
           | Some m \<Rightarrow> (Inr (Cls name bases dct flds), h')))"

text \<open>What the registry is said to compute, as maps: the bases folded left to right, then the
  class's own declarations.  \<open>declared_name dct i\<close> is the first non-empty attribute name
  under which the body holds the descriptor at address \<open>i\<close>.\<close>

definition own_map :: "(string \<times> attr) list \<Rightarrow> string \<Rightarrow> field option" where
  "own_map dct n = (case map_of dct n of Some (AField f) \<Rightarrow> Some f | _ \<Rightarrow> None)"

definition bases_map :: "cls list \<Rightarrow> string \<Rightarrow> field option" where
  "bases_map bases = foldl (\<lambda>m base. m ++ map_of (cls_fields base)) Map.empty bases"

definition is_dict :: "(string \<times> 'v) list \<Rightarrow> bool" where
  "is_dict d = distinct (map fst d)"

fun declared_name :: "(string \<times> attr) list \<Rightarrow> addr \<Rightarrow> string option" where
  "declared_name [] i = None"
| "declared_name ((attr_name, AField f) # dct) i =
     (if field_id f = i \<and> attr_name \<noteq> [] then Some attr_name else declared_name dct i)"
| "declared_name ((attr_name, AOther) # dct) i = declared_name dct i"

text \<open>
  The library reaches a record through the attributes \<open>Mapping\<close> and its bases define.
  A class is regular when its linearisation exists and no class in it puts anything of its
  own under one of the names the library itself looks up on a record or on its class.
  What an irregular class does is not modelled.
\<close>

definition library_names :: "string list" where
  "library_names =
     [''__init__'', ''__new__'', ''__getattribute__'', ''__getattr__'', ''__setattr__'',
      ''__getitem__'', ''__setitem__'', ''__delitem__'', ''__iter__'', ''__len__'',
      ''__contains__'', ''__bool__'', ''__class__'', ''__dict__'', ''__slots__'',
      ''_data'', ''_fields'', ''get'', ''pop'', ''keys'', ''unwrap'', ''from_kwargs'']"

definition regular_cls :: "cls \<Rightarrow> bool" where
  "regular_cls c =
     (case mro c of
        None \<Rightarrow> False
      | Some ms \<Rightarrow> list_all (\<lambda>d. list_all (\<lambda>n. n \<notin> set library_names) (map fst (cls_dict d))) ms)"

section \<open>Built-in conversions\<close>

text \<open>
  The built-ins \<open>str\<close>, \<open>int\<close>, \<open>bool\<close>, \<open>len\<close> of Python 3 on the values above.
  Where the result is not modelled (the \<open>repr\<close> of containers and of date values, the
  parsing of integer literals, every \<open>float\<close> and \<open>Decimal\<close>) the model answers
  \<^const>\<open>Unmodelled\<close>; otherwise it answers what Python answers, raising included.
\<close>

definition digit_char :: "nat \<Rightarrow> char" where
  "digit_char n = char_of (48 + n)"

fun digits :: "nat \<Rightarrow> string" where
  "digits n = (if n < 10 then [digit_char n] else digits (n div 10) @ [digit_char (n mod 10)])"

declare digits.simps [simp del]

definition zfill :: "nat \<Rightarrow> string \<Rightarrow> string" where
  "zfill w s = replicate (w - length s) (CHR ''0'') @ s"

definition py_str :: "pyval \<Rightarrow> error + pyval" where
  "py_str v =
     (case v of
        VStr s \<Rightarrow> Inr (VStr s)
      | VNone \<Rightarrow> Inr (VStr ''None'')
      | VBool b \<Rightarrow> Inr (VStr (if b then ''True'' else ''False''))
      | VInt i \<Rightarrow> Inr (VStr (if i < 0 then CHR ''-'' # digits (nat (- i)) else digits (nat i)))
      | _ \<Rightarrow> Inl Unmodelled)"

definition py_int :: "pyval \<Rightarrow> error + pyval" where
  "py_int v =
     (case v of
        VInt i \<Rightarrow> Inr (VInt i)
      | VBool b \<Rightarrow> Inr (VInt (if b then 1 else 0))
      | VStr s \<Rightarrow> Inl Unmodelled
      | _ \<Rightarrow> Inl TypeError)"

fun py_len :: "heap \<Rightarrow> pyval \<Rightarrow> error + nat" where
  "py_len h (VStr s) = Inr (length s)"
| "py_len h (VList a) = Inr (length (heap_lists h a))"
| "py_len h (VDict a) = Inr (length (heap_dicts h a))"
| "py_len h (VRecord c a) = (if regular_cls c then Inr (length (heap_dicts h a)) else Inl Unmodelled)"
| "py_len h (VProxy lst f) = py_len h lst"
| "py_len h _ = Inl TypeError"

definition py_bool :: "heap \<Rightarrow> pyval \<Rightarrow> error + bool" where
  "py_bool h v =
     (case v of
        VNone \<Rightarrow> Inr False
      | VBool b \<Rightarrow> Inr b
      | VInt i \<Rightarrow> Inr (i \<noteq> 0)
      | VDate y m d \<Rightarrow> Inr True
      | VTime H M S us \<Rightarrow> Inr True
      | VDateTime y m d H M S us \<Rightarrow> Inr True
      | _ \<Rightarrow> (case py_len h v of Inl e \<Rightarrow> Inl e | Inr n \<Rightarrow> Inr (0 < n)))"

subsection \<open>Dates and times\<close>

text \<open>
  \<open>time.strptime\<close> and the \<open>datetime\<close> constructors belong to the standard library.
  They are modelled on ASCII text for the three formats the library uses.  A directive
  matches a token in full: \<open>%Y\<close> four digits; \<open>%m\<close>, \<open>%d\<close>, \<open>%H\<close>, \<open>%M\<close>,
  \<open>%S\<close> two digits within the directive's range or a single digit (\<open>%d\<close> also a blank
  and a digit); the literal \<open>T\<close> matches either case.  Every failure, in
  \<open>strptime\<close> or in the constructor that receives its result, is a \<open>ValueError\<close>.
\<close>

definition is_digit :: "char \<Rightarrow> bool" where
  "is_digit c = (48 \<le> (of_char c :: nat) \<and> (of_char c :: nat) \<le> 57)"

definition digit_val :: "char \<Rightarrow> nat" where
  "digit_val c = of_char c - 48"

definition num_val :: "string \<Rightarrow> nat" where
  "num_val s = foldl (\<lambda>a c. 10 * a + digit_val c) 0 s"

definition directive :: "nat \<Rightarrow> nat \<Rightarrow> string \<Rightarrow> nat option" where
  "directive lo hi s =
     (case s of
        [c] \<Rightarrow> if is_digit c \<and> lo \<le> digit_val c then Some (digit_val c) else None
      | [c, d] \<Rightarrow> if is_digit c \<and> is_digit d \<and> lo \<le> num_val s \<and> num_val s \<le> hi
                  then Some (num_val s) else None
      | _ \<Rightarrow> None)"

definition directive_Y :: "string \<Rightarrow> nat option" where
  "directive_Y s = (if length s = 4 \<and> list_all is_digit s then Some (num_val s) else None)"

definition directive_d :: "string \<Rightarrow> nat option" where
  "directive_d s =
     (case s of
        [b, c] \<Rightarrow> if b = CHR '' '' then (if is_digit c \<and> 1 \<le> digit_val c then Some (digit_val c) else None)
                  else directive 1 31 s
      | _ \<Rightarrow> directive 1 31 s)"

definition split_on :: "(char \<Rightarrow> bool) \<Rightarrow> string \<Rightarrow> (string \<times> string) option" where
  "split_on sep s =
     (case dropWhile (\<lambda>c. \<not> sep c) s of
        [] \<Rightarrow> None
      | c # rest \<Rightarrow> Some (takeWhile (\<lambda>c. \<not> sep c) s, rest))"

definition is_leap :: "nat \<Rightarrow> bool" where
  "is_leap y = (if y mod 400 = 0 then True else if y mod 100 = 0 then False else y mod 4 = 0)"

definition days_in_month :: "nat \<Rightarrow> nat \<Rightarrow> nat" where
  "days_in_month y m =
     (if m = 2 then (if is_leap y then 29 else 28)
      else if m = 4 \<or> m = 6 \<or> m = 9 \<or> m = 11 then 30 else 31)"

text \<open>\<open>strptime(s, '%Y-%m-%d')\<close>, up to the date it denotes.\<close>

definition strptime_date :: "string \<Rightarrow> (nat \<times> nat \<times> nat) option" where
  "strptime_date s =
     (case split_on (\<lambda>c. c = CHR ''-'') s of
        None \<Rightarrow> None
      | Some (ys, s1) \<Rightarrow>
          (case split_on (\<lambda>c. c = CHR ''-'') s1 of
             None \<Rightarrow> None
           | Some (ms, ds) \<Rightarrow>
               (case (directive_Y ys, directive 1 12 ms, directive_d ds) of
                  (Some y, Some m, Some d) \<Rightarrow>
                     if 1 \<le> y \<and> d \<le> days_in_month y m then Some (y, m, d) else None
                | _ \<Rightarrow> None)))"

text \<open>\<open>strptime(s, '%H:%M:%S')\<close>, up to the time it denotes; a second of 60 or 61 passes
  \<open>strptime\<close> and is refused by \<open>time(...)\<close> and \<open>datetime(...)\<close>.\<close>

definition strptime_time :: "string \<Rightarrow> (nat \<times> nat \<times> nat) option" where
  "strptime_time s =
     (case split_on (\<lambda>c. c = CHR '':'') s of
        None \<Rightarrow> None
      | Some (hs, s1) \<Rightarrow>
          (case split_on (\<lambda>c. c = CHR '':'') s1 of
             None \<Rightarrow> None
           | Some (ms, ss) \<Rightarrow>
               (case (directive 0 23 hs, directive 0 59 ms, directive 0 61 ss) of
                  (Some H, Some M, Some S) \<Rightarrow> if S \<le> 59 then Some (H, M, S) else None
                | _ \<Rightarrow> None)))"

text \<open>\<open>strptime(s, '%Y-%m-%dT%H:%M:%S')\<close>.\<close>

definition strptime_datetime :: "string \<Rightarrow> ((nat \<times> nat \<times> nat) \<times> (nat \<times> nat \<times> nat)) option" where
  "strptime_datetime s =
     (case split_on (\<lambda>c. c = CHR ''T'' \<or> c = CHR ''t'') s of
        None \<Rightarrow> None
      | Some (date_part, time_part) \<Rightarrow>
          (case (strptime_date date_part, strptime_time time_part) of
             (Some ymd, Some hms) \<Rightarrow> Some (ymd, hms)
           | _ \<Rightarrow> None))"

text \<open>\<open>value.split('.', 1)[0]\<close> and \<open>value.rstrip('Z')\<close>.\<close>

definition before_dot :: "string \<Rightarrow> string" where
  "before_dot s = takeWhile (\<lambda>c. c \<noteq> CHR ''.'') s"

definition rstrip_Z :: "string \<Rightarrow> string" where
  "rstrip_Z s = rev (dropWhile (\<lambda>c. c = CHR ''Z'') (rev s))"

text \<open>\<open>isoformat()\<close> of a date, and of a time without microseconds.\<close>

definition date_isoformat :: "nat \<Rightarrow> nat \<Rightarrow> nat \<Rightarrow> string" where
  "date_isoformat y m d = zfill 4 (digits y) @ ''-'' @ zfill 2 (digits m) @ ''-'' @ zfill 2 (digits d)"

definition time_isoformat :: "nat \<Rightarrow> nat \<Rightarrow> nat \<Rightarrow> string" where
  "time_isoformat H M S = zfill 2 (digits H) @ '':'' @ zfill 2 (digits M) @ '':'' @ zfill 2 (digits S)"

section \<open>Leaf fields\<close>

text \<open>
  \<open>_to_python\<close> and \<open>_to_json\<close> of the field classes other than \<open>DictField\<close> and
  \<open>ListField\<close>.  \<open>Field\<close> converts with \<open>unicode_type\<close>, and its \<open>_to_json\<close>,
  which \<open>TextField\<close>, \<open>FloatField\<close>, \<open>IntegerField\<close>, \<open>LongField\<close> and
  \<open>BooleanField\<close> inherit, calls \<open>self._to_python\<close>.
\<close>

definition DateField_to_python :: "pyval \<Rightarrow> error + pyval" where
  "DateField_to_python v =
     (case v of
        VStr s \<Rightarrow> (case strptime_date s of None \<Rightarrow> Inl ValueError | Some (y, m, d) \<Rightarrow> Inr (VDate y m d))
      | _ \<Rightarrow> Inr v)"

definition DateField_to_json :: "pyval \<Rightarrow> error + pyval" where
  "DateField_to_json v =
     (case v of
        VDateTime y m d H M S us \<Rightarrow> Inr (VStr (date_isoformat y m d))
      | VDate y m d \<Rightarrow> Inr (VStr (date_isoformat y m d))
      | VTime H M S us \<Rightarrow>
          Inr (VStr (time_isoformat H M S @ (if us = 0 then [] else CHR ''.'' # zfill 6 (digits us))))
      | VRecord c a \<Rightarrow> Inl Unmodelled
      | _ \<Rightarrow> Inl AttributeError)"

definition DateTimeField_to_python :: "pyval \<Rightarrow> error + pyval" where
  "DateTimeField_to_python v =
     (case v of
        VStr s \<Rightarrow>
          (case strptime_datetime (rstrip_Z (before_dot s)) of
             None \<Rightarrow> Inl ValueError
           | Some ((y, m, d), (H, M, S)) \<Rightarrow> Inr (VDateTime y m d H M S 0))
      | _ \<Rightarrow> Inr v)"

text \<open>The part of \<open>DateTimeField._to_json\<close> after the text case: \<open>datetime.combine\<close> for
  a value that is not a date-time, then the rendering.\<close>

definition render_datetime :: "pyval \<Rightarrow> error + pyval" where
  "render_datetime v =
     (case v of
        VDateTime y m d H M S us \<Rightarrow> Inr (VStr (date_isoformat y m d @ ''T'' @ time_isoformat H M S @ ''Z''))
      | VDate y m d \<Rightarrow> Inr (VStr (date_isoformat y m d @ ''T'' @ time_isoformat 0 0 0 @ ''Z''))
      | _ \<Rightarrow> Inl TypeError)"

definition DateTimeField_to_json :: "pyval \<Rightarrow> error + pyval" where
  "DateTimeField_to_json v =
     (case v of
        VStr s \<Rightarrow> (case DateTimeField_to_python v of Inl e \<Rightarrow> Inl e | Inr value \<Rightarrow> render_datetime value)
      | _ \<Rightarrow> render_datetime v)"

definition TimeField_to_python :: "pyval \<Rightarrow> error + pyval" where
  "TimeField_to_python v =
     (case v of
        VStr s \<Rightarrow>
          (case strptime_time (before_dot s) of
             None \<Rightarrow> Inl ValueError
           | Some (H, M, S) \<Rightarrow> Inr (VTime H M S 0))
      | _ \<Rightarrow> Inr v)"

definition TimeField_to_json :: "pyval \<Rightarrow> error + pyval" where
  "TimeField_to_json v =
     (case v of
        VDateTime y m d H M S us \<Rightarrow> Inr (VStr (time_isoformat H M S))
      | VTime H M S us \<Rightarrow> Inr (VStr (time_isoformat H M S))
      | VDate y m d \<Rightarrow> Inl TypeError
      | VStr s \<Rightarrow> Inl TypeError
      | VRecord c a \<Rightarrow> Inl Unmodelled
      | _ \<Rightarrow> Inl AttributeError)"

definition leaf_to_python :: "kind \<Rightarrow> heap \<Rightarrow> pyval \<Rightarrow> error + pyval" where
  "leaf_to_python k h v =
     (case k of
        KField \<Rightarrow> py_str v
      | KText \<Rightarrow> py_str v
      | KFloat \<Rightarrow> Inl Unmodelled
      | KInteger \<Rightarrow> py_int v
      | KLong \<Rightarrow> py_int v
      | KBoolean \<Rightarrow> (case py_bool h v of Inl e \<Rightarrow> Inl e | Inr b \<Rightarrow> Inr (VBool b))
      | KDecimal \<Rightarrow> Inl Unmodelled
      | KDate \<Rightarrow> DateField_to_python v
      | KDateTime \<Rightarrow> DateTimeField_to_python v
      | KTime \<Rightarrow> TimeField_to_python v
      | _ \<Rightarrow> Inl Unmodelled)"

definition leaf_to_json :: "kind \<Rightarrow> heap \<Rightarrow> pyval \<Rightarrow> error + pyval" where
  "leaf_to_json k h v =
     (case k of
        KDecimal \<Rightarrow> py_str v
      | KDate \<Rightarrow> DateField_to_json v
      | KDateTime \<Rightarrow> DateTimeField_to_json v
      | KTime \<Rightarrow> TimeField_to_json v
      | _ \<Rightarrow> leaf_to_python k h v)"


section \<open>Defaults\<close>

text \<open>
  Calling a default.  \<open>default.copy()\<close> exists on dicts (and, in Python 3 only, on lists);
  \<open>copy.copy\<close> makes a new container with the same items from a list or a dict and
  returns an immutable value as it is; the copy of a record or of a view shares the
  record's dict and the view's list.
\<close>

definition call_default :: "dflt \<Rightarrow> heap \<Rightarrow> pyval result" where
  "call_default d h =
     (case d of
        DValue v \<Rightarrow> (Inr v, h)
      | DProducer v \<Rightarrow> (Inr v, h)
      | DDictCopy v \<Rightarrow>
          (case v of
             VDict a \<Rightarrow> (case new_dict (heap_dicts h a) h of (a', h') \<Rightarrow> (Inr (VDict a'), h'))
           | VList a \<Rightarrow> (Inl Unmodelled, h)
           | VRecord c a \<Rightarrow> (Inl Unmodelled, h)
           | _ \<Rightarrow> (Inl AttributeError, h))
      | DListCopy v \<Rightarrow>
          (case v of
             VList a \<Rightarrow> (case new_list (heap_lists h a) h of (a', h') \<Rightarrow> (Inr (VList a'), h'))
           | VDict a \<Rightarrow> (case new_dict (heap_dicts h a) h of (a', h') \<Rightarrow> (Inr (VDict a'), h'))
           | _ \<Rightarrow> (Inr v, h)))"

text \<open>\<open>DictField.__init__\<close> and \<open>ListField.__init__\<close> (the latter for an element given as
  a field instance).  \<open>default or {}\<close> allocates the empty container once, when the field
  is made.\<close>

definition DictField_init :: "cls option \<Rightarrow> string option \<Rightarrow> pyval \<Rightarrow> heap \<Rightarrow> field result" where
  "DictField_init mapping name default_arg h =
     (case py_bool h default_arg of
        Inl e \<Rightarrow> (Inl e, h)
      | Inr b \<Rightarrow>
          (case (if b then (default_arg, h) else (case new_dict [] h of (a, h') \<Rightarrow> (VDict a, h'))) of
             (dflt_val, h1) \<Rightarrow>
               (case Field_init (KDict mapping) name (DDictCopy dflt_val) h1 of
                  (f, h2) \<Rightarrow> (Inr f, h2))))"

definition ListField_init :: "field \<Rightarrow> string option \<Rightarrow> pyval \<Rightarrow> heap \<Rightarrow> field result" where
  "ListField_init element name default_arg h =
     (case py_bool h default_arg of
        Inl e \<Rightarrow> (Inl e, h)
      | Inr b \<Rightarrow>
          (case (if b then (default_arg, h) else (case new_list [] h of (a, h') \<Rightarrow> (VList a, h'))) of
             (dflt_val, h1) \<Rightarrow>
               (case Field_init (KList element) name (DListCopy dflt_val) h1 of
                  (f, h2) \<Rightarrow> (Inr f, h2))))"

section \<open>Records and composite fields\<close>

text \<open>
  \<open>**value\<close> in \<open>from_kwargs(**value)\<close>: the items of a dict or of a record, copied into
  a new dict; a key \<open>cls\<close> collides with the first parameter of the class method.
\<close>

definition unpack_kwargs :: "pyval \<Rightarrow> heap \<Rightarrow> pyval result" where
  "unpack_kwargs v h =
     (case v of
        VDict a \<Rightarrow>
          (if ''cls'' \<in> fst ` set (heap_dicts h a) then (Inl TypeError, h)
           else (case new_dict (heap_dicts h a) h of (a', h') \<Rightarrow> (Inr (VDict a'), h')))
      | VRecord c a \<Rightarrow>
          (if \<not> regular_cls c then (Inl Unmodelled, h)
           else if ''cls'' \<in> fst ` set (heap_dicts h a) then (Inl TypeError, h)
           else (case new_dict (heap_dicts h a) h of (a', h') \<Rightarrow> (Inr (VDict a'), h')))
      | _ \<Rightarrow> (Inl TypeError, h))"

text \<open>The items a \<open>for\<close> loop over a value visits; iterating a sequence view converts its
  elements on the way and is not modelled.\<close>

definition iter_items :: "heap \<Rightarrow> pyval \<Rightarrow> error + pyval list" where
  "iter_items h v =
     (case v of
        VList a \<Rightarrow> Inr (heap_lists h a)
      | VDict a \<Rightarrow> Inr (map (\<lambda>(k, x). VStr k) (heap_dicts h a))
      | VRecord c a \<Rightarrow>
          (if regular_cls c then Inr (map (\<lambda>(k, x). VStr k) (heap_dicts h a)) else Inl Unmodelled)
      | VStr s \<Rightarrow> Inr (map (\<lambda>c. VStr [c]) s)
      | VProxy lst f \<Rightarrow> Inl Unmodelled
      | _ \<Rightarrow> Inl TypeError)"

text \<open>The dict behind \<open>values\<close> in \<open>Mapping.__init__\<close>, for \<open>in\<close> and \<open>pop\<close>: a dict,
  or a record (whose \<open>MutableMapping\<close> methods act on its \<open>_data\<close>).\<close>

definition values_dict :: "pyval \<Rightarrow> addr option" where
  "values_dict v =
     (case v of
        VDict a \<Rightarrow> Some a
      | VRecord c a \<Rightarrow> (if regular_cls c then Some a else None)
      | _ \<Rightarrow> None)"

definition is_Mapping :: "pyval \<Rightarrow> bool" where
  "is_Mapping v = (case v of VRecord c a \<Rightarrow> True | _ \<Rightarrow> False)"

text \<open>\<open>value.unwrap()\<close>: on a record, \<open>Mapping.unwrap\<close> returns its \<open>_data\<close>, the dict
  itself.\<close>

definition unwrap :: "pyval \<Rightarrow> error + pyval" where
  "unwrap r =
     (case r of
        VRecord c a \<Rightarrow> (if regular_cls c then Inr (VDict a) else Inl Unmodelled)
      | _ \<Rightarrow> Inl AttributeError)"

text \<open>\<open>instance.get(self.name)\<close>: the stored value, or \<open>None\<close> when the key is missing
  (no dict of the model has the key \<open>None\<close>).\<close>

definition Mapping_get :: "addr \<Rightarrow> string option \<Rightarrow> heap \<Rightarrow> pyval" where
  "Mapping_get inst name h =
     (case name of
        None \<Rightarrow> VNone
      | Some n \<Rightarrow> (case map_of (heap_dicts h inst) n of None \<Rightarrow> VNone | Some v \<Rightarrow> v))"

text \<open>
  The descriptor protocol and the constructor.  A record is passed as the address of its
  \<open>_data\<close>.  \<open>Field_get\<close> is \<open>Field.__get__\<close> on an instance, \<open>Field_set\<close> is
  \<open>Field.__set__\<close>; \<open>to_python\<close> and \<open>to_json\<close> dispatch \<open>_to_python\<close> and
  \<open>_to_json\<close> on the field's class.

  The loop of \<open>Mapping.__init__\<close> (\<open>init_fields\<close>) runs over the items of \<open>_fields\<close> and
  uses the attribute name only: \<open>setattr(self, field_name, \<dots>)\<close> and
  \<open>getattr(self, field_name)\<close> find the attribute on the class of the record, along its
  method resolution order, and go through \<open>__set__\<close> and \<open>__get__\<close> of the descriptor
  found there.  When what is found is not a field descriptor the result is not modelled.
\<close>

lemma c3_merge_subset: "c3_merge ls = Some r \<Longrightarrow> x \<in> set r \<Longrightarrow> \<exists>l\<in>set ls. x \<in> set l"
proof (induction ls arbitrary: r rule: c3_merge.induct)
  case (1 ls)
  show ?case
  proof (cases "nonempty ls = []")
    case True
    with "1.prems" show ?thesis by (simp add: c3_merge.simps [of ls])
  next
    case False
    with "1.prems" obtain c r' where c: "find (good_head (nonempty ls)) (map hd (nonempty ls)) = Some c"
        and r': "c3_merge (map (remove_head c) (nonempty ls)) = Some r'" and r: "r = c # r'"
      by (auto simp: c3_merge.simps [of ls] split: option.splits)
    show ?thesis
    proof (cases "x = c")
      case True
      from c have "c \<in> set (map hd (nonempty ls))" by (auto simp: find_Some_iff)
      then obtain l where "l \<in> set ls" "l \<noteq> []" "hd l = c" by (auto simp: nonempty_def)
      with True show ?thesis by (metis hd_in_set)
    next
      case neq: False
      with "1.prems" r have "x \<in> set r'" by simp
      from "1.IH" [OF False c r' this] obtain l where l: "l \<in> set (nonempty ls)" and x: "x \<in> set (remove_head c l)"
        by auto
      have "set (remove_head c l) \<subseteq> set l" by (cases l) auto
      with l x show ?thesis by (auto simp: nonempty_def)
    qed
  qed
qed

lemma size_in_list: "x \<in> set xs \<Longrightarrow> size (x :: cls) \<le> size_list size xs"
  by (induction xs) auto

lemma mro_size:
  shows "mro c = Some ms \<Longrightarrow> d \<in> set ms \<Longrightarrow> size d \<le> size c"
    and "mro_list bs = Some mss \<Longrightarrow> m \<in> set mss \<Longrightarrow> d \<in> set m \<Longrightarrow> size d \<le> size_list size bs"
proof (induction c and bs arbitrary: ms d and mss m d rule: mro_mro_list.induct)
  case (1 c)
  from "1.prems" obtain mss r where mss: "mro_list (cls_bases c) = Some mss"
      and r: "c3_merge (mss @ [cls_bases c]) = Some r" and ms': "ms = c # r"
    by (auto simp: mro.simps [of c] split: option.splits)
  show ?case
  proof (cases "d = c")
    case True
    then show ?thesis by simp
  next
    case False
    with "1.prems" ms' have "d \<in> set r" by simp
    from c3_merge_subset [OF r this] obtain l where l: "l \<in> set (mss @ [cls_bases c])" and dl: "d \<in> set l"
      by auto
    have "size d \<le> size_list size (cls_bases c)"
    proof (cases "l \<in> set mss")
      case True
      from "1.IH" [OF mss True dl] show ?thesis .
    next
      case False
      with l have "l = cls_bases c" by simp
      with dl show ?thesis by (simp add: size_in_list)
    qed
    with size_cls_bases [of c] show ?thesis by simp
  qed
next
  case 2
  then show ?case by simp
next
  case (3 b bs)
  from "3.prems" obtain m0 ms0 where m0: "mro b = Some m0" and ms0: "mro_list bs = Some ms0"
      and eq: "mss = m0 # ms0"
    by (auto split: option.splits)
  show ?case
  proof (cases "m = m0")
    case True
    with "3.IH"(1) [OF m0] "3.prems" have "size d \<le> size b" by simp
    then show ?thesis by simp
  next
    case False
    with "3.prems" eq have "m \<in> set ms0" by simp
    from "3.IH"(2) [OF m0 ms0 this] "3.prems" have "size d \<le> size_list size bs" by simp
    then show ?thesis by simp
  qed
qed

lemma size_in_dict: "(n, AField g) \<in> set dct \<Longrightarrow> size g < size_list (size_prod (\<lambda>_. 0) size) dct"
  by (induction dct) auto

lemma lookup_in_size: "lookup_in ms n = Some (AField g) \<Longrightarrow> \<exists>d\<in>set ms. size g < size d"
proof (induction ms)
  case Nil
  then show ?case by simp
next
  case (Cons d ds)
  show ?case
  proof (cases "map_of (cls_dict d) n")
    case None
    with Cons show ?thesis by auto
  next
    case (Some a)
    with Cons.prems have "(n, AField g) \<in> set (cls_dict d)" by (auto dest: map_of_SomeD)
    then have "size g < size_list (size_prod (\<lambda>_. 0) size) (cls_dict d)"
      by (rule size_in_dict)
    moreover have "size_list (size_prod (\<lambda>_. 0) size) (cls_dict d) < size d" by (cases d) simp
    ultimately show ?thesis by auto
  qed
qed

lemma class_lookup_size: "class_lookup c n = Some (AField g) \<Longrightarrow> size g < size c"
proof -
  assume a: "class_lookup c n = Some (AField g)"
  then obtain ms where ms: "mro c = Some ms" and l: "lookup_in ms n = Some (AField g)"
    by (auto simp: class_lookup_def split: option.splits)
  from lookup_in_size [OF l] obtain d where "d \<in> set ms" "size g < size d" by auto
  with mro_size(1) [OF ms] show ?thesis by fastforce
qed

function
  to_python :: "field \<Rightarrow> pyval \<Rightarrow> heap \<Rightarrow> pyval result" and
  to_json :: "field \<Rightarrow> pyval \<Rightarrow> heap \<Rightarrow> pyval result" and
  to_json_items :: "field \<Rightarrow> pyval list \<Rightarrow> heap \<Rightarrow> pyval list result" and
  from_kwargs :: "cls \<Rightarrow> pyval \<Rightarrow> heap \<Rightarrow> pyval result" and
  Mapping_init :: "cls \<Rightarrow> pyval \<Rightarrow> heap \<Rightarrow> pyval result" and
  init_fields :: "cls \<Rightarrow> (string \<times> field) list \<Rightarrow> addr \<Rightarrow> pyval \<Rightarrow> heap \<Rightarrow> unit result" and
  Field_get :: "field \<Rightarrow> addr \<Rightarrow> heap \<Rightarrow> pyval result" and
  Field_set :: "field \<Rightarrow> addr \<Rightarrow> pyval \<Rightarrow> heap \<Rightarrow> unit result"
where
  "to_python f v h =
     (case field_kind f of
        KDict mapping \<Rightarrow>
          (case mapping of
             None \<Rightarrow> (Inr v, h)
           | Some c \<Rightarrow> from_kwargs c v h)
      | KList element \<Rightarrow> (Inr (VProxy v element), h)
      | k \<Rightarrow> (leaf_to_python k h v, h))"
| "to_json f v h =
     (case field_kind f of
        KDict mapping \<Rightarrow>
          (case mapping of
             None \<Rightarrow> (Inr v, h)
           | Some c \<Rightarrow>
               (if is_Mapping v then (unwrap v, h)
                else (case from_kwargs c v h of
                        (Inl e, h') \<Rightarrow> (Inl e, h')
                      | (Inr r, h') \<Rightarrow> (unwrap r, h'))))
      | KList element \<Rightarrow>
          (case iter_items h v of
             Inl e \<Rightarrow> (Inl e, h)
           | Inr items \<Rightarrow>
               (case to_json_items element items h of
                  (Inl e, h') \<Rightarrow> (Inl e, h')
                | (Inr raws, h') \<Rightarrow> (case new_list raws h' of (a, h'') \<Rightarrow> (Inr (VList a), h''))))
      | k \<Rightarrow> (leaf_to_json k h v, h))"
| "to_json_items element [] h = (Inr [], h)"
| "to_json_items element (item # items) h =
     (case to_json element item h of
        (Inl e, h') \<Rightarrow> (Inl e, h')
      | (Inr raw, h') \<Rightarrow>
          (case to_json_items element items h' of
             (Inl e, h'') \<Rightarrow> (Inl e, h'')
           | (Inr raws, h'') \<Rightarrow> (Inr (raw # raws), h'')))"
| "from_kwargs c v h =
     (case unpack_kwargs v h of
        (Inl e, h') \<Rightarrow> (Inl e, h')
      | (Inr kwargs, h') \<Rightarrow> Mapping_init c kwargs h')"
| "Mapping_init c vals h =
     (if \<not> regular_cls c then (Inl Unmodelled, h)
      else
       (case py_bool h vals of
          Inl e \<Rightarrow> (Inl e, h)
        | Inr b \<Rightarrow>
            (case (if b then (vals, h) else (case new_dict [] h of (a, h') \<Rightarrow> (VDict a, h'))) of
               (vals', h1) \<Rightarrow>
                 (case new_dict [] h1 of
                    (self, h2) \<Rightarrow>
                      (case init_fields c (cls_fields c) self vals' h2 of
                         (Inl e, h3) \<Rightarrow> (Inl e, h3)
                       | (Inr u, h3) \<Rightarrow> (Inr (VRecord c self), h3))))))"
| "init_fields c [] self vals h = (Inr (), h)"
| "init_fields c ((attr_name, f) # rest) self vals h =
     (case values_dict vals of
        None \<Rightarrow> (Inl Unmodelled, h)
      | Some va \<Rightarrow>
          (case map_of (heap_dicts h va) attr_name of
             Some v \<Rightarrow>
               (case class_lookup c attr_name of
                  Some (AField g) \<Rightarrow>
                    (case Field_set g self v (set_dict va (AList.delete attr_name (heap_dicts h va)) h) of
                       (Inl e, h') \<Rightarrow> (Inl e, h')
                     | (Inr u, h') \<Rightarrow> init_fields c rest self vals h')
                | _ \<Rightarrow> (Inl Unmodelled, set_dict va (AList.delete attr_name (heap_dicts h va)) h))
           | None \<Rightarrow>
               (case class_lookup c attr_name of
                  Some (AField g) \<Rightarrow>
                    (case Field_get g self h of
                       (Inl e, h') \<Rightarrow> (Inl e, h')
                     | (Inr v, h') \<Rightarrow>
                         (case Field_set g self v h' of
                            (Inl e, h'') \<Rightarrow> (Inl e, h'')
                          | (Inr u, h'') \<Rightarrow> init_fields c rest self vals h''))
                | _ \<Rightarrow> (Inl Unmodelled, h))))"
| "Field_get f inst h =
     (case Mapping_get inst (field_name h f) h of
        VNone \<Rightarrow> call_default (field_default f) h
      | v \<Rightarrow> to_python f v h)"
| "Field_set f inst v h =
     (case (if v \<noteq> VNone then to_json f v h else (Inr v, h)) of
        (Inl e, h') \<Rightarrow> (Inl e, h')
      | (Inr raw, h') \<Rightarrow>
          (case field_name h' f of
             None \<Rightarrow> (Inl Unmodelled, h')
           | Some n \<Rightarrow> (Inr (), set_dict inst (AList.update n raw (heap_dicts h' inst)) h')))"
  by pat_completeness auto

text \<open>The calls descend into the field and schema structure; the loop over the items of a
  list keeps the element field and shortens the list, the loop over the items of
  \<open>_fields\<close> keeps the class and shortens the table.\<close>

lemma size_field_dict: "field_kind f = KDict (Some c) \<Longrightarrow> size c < size f"
  by (cases f) simp

lemma size_field_list: "field_kind f = KList e \<Longrightarrow> size e < size f"
  by (cases f) simp

termination to_python
  apply (relation "measures [
     (\<lambda>x. case x of
        Inl (Inl (Inl (f, v, h))) \<Rightarrow> size f
      | Inl (Inl (Inr (f, v, h))) \<Rightarrow> size f
      | Inl (Inr (Inl (f, vs, h))) \<Rightarrow> size f
      | Inl (Inr (Inr (c, v, h))) \<Rightarrow> size c
      | Inr (Inl (Inl (c, v, h))) \<Rightarrow> size c
      | Inr (Inl (Inr (c, fs, a, v, h))) \<Rightarrow> size c
      | Inr (Inr (Inl (f, a, h))) \<Rightarrow> size f
      | Inr (Inr (Inr (f, a, v, h))) \<Rightarrow> size f),
     (\<lambda>x. case x of
        Inl (Inl (Inl (f, v, h))) \<Rightarrow> 0
      | Inl (Inl (Inr (f, v, h))) \<Rightarrow> 0
      | Inl (Inr (Inl (f, vs, h))) \<Rightarrow> Suc (length vs)
      | Inl (Inr (Inr (c, v, h))) \<Rightarrow> length (cls_fields c) + 3
      | Inr (Inl (Inl (c, v, h))) \<Rightarrow> length (cls_fields c) + 2
      | Inr (Inl (Inr (c, fs, a, v, h))) \<Rightarrow> length fs + 1
      | Inr (Inr (Inl (f, a, h))) \<Rightarrow> 1
      | Inr (Inr (Inr (f, a, v, h))) \<Rightarrow> 1)]")
  apply (simp_all add: size_field_dict size_field_list class_lookup_size)
  done

declare to_python.simps [simp del] to_json.simps [simp del] from_kwargs.simps [simp del]
  Mapping_init.simps [simp del] Field_get.simps [simp del] Field_set.simps [simp del]

section \<open>The sequence view: \<open>ListField.Proxy\<close>\<close>












section \<open>The canonical raw form of a date-time\<close>

text \<open>\<open>YYYY-MM-DDTHH:MM:SSZ\<close>: digits in the six fields, the separators in between.\<close>

definition fixed_digits :: "nat \<Rightarrow> string \<Rightarrow> bool" where
  "fixed_digits w t = (length t = w \<and> list_all is_digit t)"

definition is_canonical_datetime :: "string \<Rightarrow> bool" where
  "is_canonical_datetime s =
     (fixed_digits 4 (take 4 s) \<and> take 1 (drop 4 s) = ''-'' \<and>
      fixed_digits 2 (take 2 (drop 5 s)) \<and> take 1 (drop 7 s) = ''-'' \<and>
      fixed_digits 2 (take 2 (drop 8 s)) \<and> take 1 (drop 10 s) = ''T'' \<and>
      fixed_digits 2 (take 2 (drop 11 s)) \<and> take 1 (drop 13 s) = '':'' \<and>
      fixed_digits 2 (take 2 (drop 14 s)) \<and> take 1 (drop 16 s) = '':'' \<and>
      fixed_digits 2 (take 2 (drop 17 s)) \<and> drop 19 s = ''Z'')"



section \<open>Statements to compare the code with\<close>

text \<open>
  \<open>DictField._to_json\<close> for a designated schema, in the words of the specification:
  \<open>value.unwrap()\<close> if the value is already a record of that schema, else a record of
  that schema is constructed from the value and unwrapped.
\<close>

definition DictField_to_json_spec :: "cls option \<Rightarrow> pyval \<Rightarrow> heap \<Rightarrow> pyval result" where
  "DictField_to_json_spec mapping v h =
     (case mapping of
        None \<Rightarrow> (Inr v, h)
      | Some c \<Rightarrow>
          (if (case v of VRecord c' a \<Rightarrow> c' = c | _ \<Rightarrow> False) then (unwrap v, h)
           else (case from_kwargs c v h of
                   (Inl e, h') \<Rightarrow> (Inl e, h')
                 | (Inr r, h') \<Rightarrow> (unwrap r, h'))))"

subsection \<open>Facts about dicts\<close>

lemma map_of_dict_update:
  "is_dict e \<Longrightarrow> map_of (dict_update d e) = map_of d ++ map_of e"
proof (induction e arbitrary: d)
  case Nil
  then show ?case by (simp add: dict_update_def)
next
  case (Cons p e)
  obtain k v where p: "p = (k, v)" by (cases p)
  from Cons.prems have k: "k \<notin> fst ` set e" and e: "is_dict e"
    by (auto simp: is_dict_def p)
  have "map_of (dict_update d (p # e)) = map_of (dict_update (AList.update k v d) e)"
    by (simp add: dict_update_def p)
  also have "\<dots> = map_of (AList.update k v d) ++ map_of e"
    by (rule Cons.IH [OF e])
  also have "\<dots> = (map_of d)(k \<mapsto> v) ++ map_of e"
    by (simp only: update_conv')
  also have "\<dots> = map_of d ++ map_of (p # e)"
  proof (rule ext)
    fix x
    have "map_of e k = None"
      using k by (simp add: map_of_eq_None_iff)
    then show "((map_of d)(k \<mapsto> v) ++ map_of e) x = (map_of d ++ map_of (p # e)) x"
      by (auto simp: p map_add_def split: option.splits)
  qed
  finally show ?case .
qed

lemma is_dict_dict_update: "is_dict d \<Longrightarrow> is_dict (dict_update d e)"
  unfolding dict_update_def is_dict_def
  by (induction e arbitrary: d) (auto simp: distinct_update)


lemma is_dict_inherit_fields: "is_dict flds \<Longrightarrow> is_dict (inherit_fields bases flds)"
  by (induction bases arbitrary: flds) (auto simp: is_dict_dict_update)

lemma map_of_inherit_fields:
  "\<forall>base \<in> set bases. is_dict (cls_fields base) \<Longrightarrow>
   map_of (inherit_fields bases flds) =
     foldl (\<lambda>m base. m ++ map_of (cls_fields base)) (map_of flds) bases"
  by (induction bases arbitrary: flds) (simp_all add: map_of_dict_update)

lemma is_dict_declare_fields: "is_dict flds \<Longrightarrow> is_dict (fst (declare_fields dct flds h))"
  by (induction dct flds h rule: declare_fields.induct) (auto simp: is_dict_def distinct_update)

lemma map_of_declare_fields:
  "is_dict dct \<Longrightarrow> map_of (fst (declare_fields dct flds h)) = map_of flds ++ own_map dct"
proof (induction dct flds h rule: declare_fields.induct)
  case (1 flds h)
  then show ?case by (simp add: own_map_def)
next
  case (2 attr_name field_value dct flds h)
  then have k: "attr_name \<notin> fst ` set dct" and d: "is_dict dct"
    by (auto simp: is_dict_def)
  have "map_of dct attr_name = None"
    using k by (simp add: map_of_eq_None_iff)
  then have "(map_of flds)(attr_name \<mapsto> field_value) ++ own_map dct =
        map_of flds ++ own_map ((attr_name, AField field_value) # dct)"
    by (intro ext) (auto simp: own_map_def map_add_def split: option.splits attr.splits)
  moreover have "map_of (fst (declare_fields ((attr_name, AField field_value) # dct) flds h)) =
      map_of (AList.update attr_name field_value flds) ++ own_map dct"
    using "2.IH" [OF d] by simp
  ultimately show ?case by (simp only: update_conv')
next
  case (3 attr_name dct flds h)
  then have k: "attr_name \<notin> fst ` set dct" and d: "is_dict dct"
    by (auto simp: is_dict_def)
  have "map_of dct attr_name = None"
    using k by (simp add: map_of_eq_None_iff)
  then have "own_map dct = own_map ((attr_name, AOther) # dct)"
    by (intro ext) (auto simp: own_map_def split: option.splits attr.splits)
  then show ?case using 3 d by simp
qed

subsection \<open>The names the registry assigns\<close>

lemma declare_fields_frame:
  "heap_lists (snd (declare_fields dct flds h)) = heap_lists h \<and>
   heap_dicts (snd (declare_fields dct flds h)) = heap_dicts h \<and>
   list_top (snd (declare_fields dct flds h)) = list_top h \<and>
   dict_top (snd (declare_fields dct flds h)) = dict_top h \<and>
   field_top (snd (declare_fields dct flds h)) = field_top h"
  by (induction dct flds h rule: declare_fields.induct) (simp_all add: set_name_def)

lemma declare_fields_keeps_name:
  "\<not> name_unset (heap_names h i) \<Longrightarrow> heap_names (snd (declare_fields dct flds h)) i = heap_names h i"
proof (induction dct flds h rule: declare_fields.induct)
  case (1 flds h)
  then show ?case by simp
next
  case (2 attr_name field_value dct flds h)
  show ?case
  proof (cases "name_unset (field_name h field_value)")
    case True
    with "2.prems" have ne: "field_id field_value \<noteq> i" by (auto simp: field_name_def)
    then have "\<not> name_unset (heap_names (set_name (field_id field_value) (Some attr_name) h) i)"
      using "2.prems" by (simp add: set_name_def)
    with "2.IH" True ne show ?thesis by (simp add: set_name_def)
  next
    case False
    with 2 show ?thesis by simp
  qed
next
  case (3 attr_name dct flds h)
  then show ?case by simp
qed

lemma declare_fields_binds_name:
  "name_unset (heap_names h i) \<Longrightarrow> declared_name dct i = Some n \<Longrightarrow>
   heap_names (snd (declare_fields dct flds h)) i = Some n"
proof (induction dct flds h rule: declare_fields.induct)
  case (1 flds h)
  then show ?case by simp
next
  case (2 attr_name field_value dct flds h)
  show ?case
  proof (cases "field_id field_value = i")
    case True
    show ?thesis
    proof (cases "attr_name = []")
      case e: True
      with True 2 show ?thesis by (simp add: set_name_def field_name_def name_unset_def)
    next
      case e: False
      with True "2.prems" have n: "n = attr_name" by simp
      let ?h = "set_name i (Some attr_name) h"
      have "\<not> name_unset (heap_names ?h i)" using e by (simp add: set_name_def name_unset_def)
      from declare_fields_keeps_name [OF this]
      have "heap_names (snd (declare_fields dct (AList.update attr_name field_value flds) ?h)) i = Some attr_name"
        by (simp add: set_name_def)
      with True "2.prems" n show ?thesis by (simp add: field_name_def)
    qed
  next
    case False
    with 2 show ?thesis by (simp add: set_name_def field_name_def)
  qed
next
  case (3 attr_name dct flds h)
  then show ?case by simp
qed

lemma declare_fields_leaves_unset:
  "name_unset (heap_names h i) \<Longrightarrow> declared_name dct i = None \<Longrightarrow>
   name_unset (heap_names (snd (declare_fields dct flds h)) i)"
proof (induction dct flds h rule: declare_fields.induct)
  case (1 flds h)
  then show ?case by simp
next
  case (2 attr_name field_value dct flds h)
  then show ?case by (auto simp: set_name_def field_name_def name_unset_def split: if_splits)
next
  case (3 attr_name dct flds h)
  then show ?case by simp
qed

lemma mro_no_bases: "mro (Cls name [] dct flds) = Some [Cls name [] dct flds]"
  by (simp add: mro.simps c3_merge.simps nonempty_def)


section \<open>Schema inheritance\<close>

text \<open>
  C7.  For every schema declaration whose class body \<open>dct\<close> is a dict and whose bases
  carry dicts as \<open>_fields\<close>, the table \<open>fields\<close> that \<open>MappingMeta.__new__\<close>
  computes and stores as \<open>_fields\<close> is a dict that maps a name to: the descriptor object
  the class's own body holds under that name when it is a \<open>Field\<close>, and otherwise the
  descriptor of the last-listed base that has the name.  That is, the bases are folded in
  declaration order, each overriding the earlier ones, and the own declared fields are
  applied last and win every collision.  The class is made with that table unless
  \<open>type.__new__\<close> finds no linearisation of its ancestors (which cannot happen without
  listed bases).  Along the way the descriptor objects of the body are named in place: a
  descriptor that has a name keeps it, one without a name gets the first non-empty
  attribute name under which the body holds it (and keeps that name under every other
  attribute that holds the same object), and nothing else in the store changes.
\<close>

theorem schema_inheritance:
  assumes "is_dict dct" and "\<forall>base \<in> set bases. is_dict (cls_fields base)"
    and "declare_fields dct (inherit_fields bases []) h = (flds, h')"
  shows "map_of flds = bases_map bases ++ own_map dct
       \<and> is_dict flds
       \<and> MappingMeta_new name bases dct h =
           ((if mro (Cls name bases dct flds) = None then Inl TypeError
             else Inr (Cls name bases dct flds)), h')
       \<and> (bases = [] \<longrightarrow> MappingMeta_new name bases dct h = (Inr (Cls name bases dct flds), h'))
       \<and> (\<not> name_unset (heap_names h i) \<longrightarrow> heap_names h' i = heap_names h i)
       \<and> (name_unset (heap_names h i) \<and> declared_name dct i = Some n \<longrightarrow> heap_names h' i = Some n)
       \<and> (name_unset (heap_names h i) \<and> declared_name dct i = None \<longrightarrow> name_unset (heap_names h' i))
       \<and> heap_lists h' = heap_lists h \<and> heap_dicts h' = heap_dicts h"
proof -
  have e: "is_dict ([] :: (string \<times> field) list)" by (simp add: is_dict_def)
  from assms(3) have f: "flds = fst (declare_fields dct (inherit_fields bases []) h)"
    and h': "h' = snd (declare_fields dct (inherit_fields bases []) h)" by simp_all
  have 1: "map_of flds = bases_map bases ++ own_map dct"
    using assms(1,2) by (simp add: f bases_map_def map_of_declare_fields map_of_inherit_fields)
  have 2: "is_dict flds"
    using e by (simp add: f is_dict_declare_fields is_dict_inherit_fields)
  have 3: "MappingMeta_new name bases dct h =
           ((if mro (Cls name bases dct flds) = None then Inl TypeError
             else Inr (Cls name bases dct flds)), h')"
    using assms(3) by (auto simp: MappingMeta_new_def split: option.splits)
  have 4: "bases = [] \<longrightarrow> MappingMeta_new name bases dct h = (Inr (Cls name bases dct flds), h')"
    using 3 by (auto simp: mro_no_bases)
  have 5: "\<not> name_unset (heap_names h i) \<longrightarrow> heap_names h' i = heap_names h i"
    by (simp add: h' declare_fields_keeps_name)
  have 6: "name_unset (heap_names h i) \<and> declared_name dct i = Some n \<longrightarrow> heap_names h' i = Some n"
    by (simp add: h' declare_fields_binds_name)
  have 7: "name_unset (heap_names h i) \<and> declared_name dct i = None \<longrightarrow> name_unset (heap_names h' i)"
    by (simp add: h' declare_fields_leaves_unset)
  have 8: "heap_lists h' = heap_lists h \<and> heap_dicts h' = heap_dicts h"
    by (simp add: h' declare_fields_frame)
  from 1 2 3 4 5 6 7 8 show ?thesis by blast
qed


theorem schema_inheritance_witness:
  "fst (declare_fields
          [(''y'', AField (Field 3 KBoolean (DValue VNone))),
           (''p'', AField (Field 4 KText (DValue VNone))),
           (''unwrap'', AOther),
           (''q'', AField (Field 4 KText (DValue VNone)))]
          (inherit_fields
             [Cls ''A'' [] [(''x'', AField (Field 0 KText (DValue VNone))), (''y'', AField (Field 1 KInteger (DValue VNone)))]
                           [(''x'', Field 0 KText (DValue VNone)), (''y'', Field 1 KInteger (DValue VNone))],
              Cls ''B'' [] [(''x'', AField (Field 2 KInteger (DValue VNone)))]
                           [(''x'', Field 2 KInteger (DValue VNone))]] [])
          (empty_heap\<lparr>heap_names := [0 \<mapsto> ''x'', 1 \<mapsto> ''y'', 2 \<mapsto> ''x''], field_top := 5\<rparr>))
     = [(''x'', Field 2 KInteger (DValue VNone)), (''y'', Field 3 KBoolean (DValue VNone)),
        (''p'', Field 4 KText (DValue VNone)), (''q'', Field 4 KText (DValue VNone))]
   \<and> map_of (fst (declare_fields
          [(''y'', AField (Field 3 KBoolean (DValue VNone))),
           (''p'', AField (Field 4 KText (DValue VNone))),
           (''unwrap'', AOther),
           (''q'', AField (Field 4 KText (DValue VNone)))]
          (inherit_fields
             [Cls ''A'' [] [(''x'', AField (Field 0 KText (DValue VNone))), (''y'', AField (Field 1 KInteger (DValue VNone)))]
                           [(''x'', Field 0 KText (DValue VNone)), (''y'', Field 1 KInteger (DValue VNone))],
              Cls ''B'' [] [(''x'', AField (Field 2 KInteger (DValue VNone)))]
                           [(''x'', Field 2 KInteger (DValue VNone))]] [])
          (empty_heap\<lparr>heap_names := [0 \<mapsto> ''x'', 1 \<mapsto> ''y'', 2 \<mapsto> ''x''], field_top := 5\<rparr>)))
     = [''x'' \<mapsto> Field 2 KInteger (DValue VNone), ''y'' \<mapsto> Field 3 KBoolean (DValue VNone),
        ''p'' \<mapsto> Field 4 KText (DValue VNone), ''q'' \<mapsto> Field 4 KText (DValue VNone)]
   \<and> heap_names (snd (declare_fields
          [(''y'', AField (Field 3 KBoolean (DValue VNone))),
           (''p'', AField (Field 4 KText (DValue VNone))),
           (''unwrap'', AOther),
           (''q'', AField (Field 4 KText (DValue VNone)))]
          (inherit_fields
             [Cls ''A'' [] [(''x'', AField (Field 0 KText (DValue VNone))), (''y'', AField (Field 1 KInteger (DValue VNone)))]
                           [(''x'', Field 0 KText (DValue VNone)), (''y'', Field 1 KInteger (DValue VNone))],
              Cls ''B'' [] [(''x'', AField (Field 2 KInteger (DValue VNone)))]
                           [(''x'', Field 2 KInteger (DValue VNone))]] [])
          (empty_heap\<lparr>heap_names := [0 \<mapsto> ''x'', 1 \<mapsto> ''y'', 2 \<mapsto> ''x''], field_top := 5\<rparr>))) 4
     = Some ''p''"
proof -
  let ?dct = "[(''y'', AField (Field 3 KBoolean (DValue VNone))),
           (''p'', AField (Field 4 KText (DValue VNone))),
           (''unwrap'', AOther),
           (''q'', AField (Field 4 KText (DValue VNone)))]"
  let ?bases = "[Cls ''A'' [] [(''x'', AField (Field 0 KText (DValue VNone))), (''y'', AField (Field 1 KInteger (DValue VNone)))]
                           [(''x'', Field 0 KText (DValue VNone)), (''y'', Field 1 KInteger (DValue VNone))],
              Cls ''B'' [] [(''x'', AField (Field 2 KInteger (DValue VNone)))]
                           [(''x'', Field 2 KInteger (DValue VNone))]]"
  let ?h = "empty_heap\<lparr>heap_names := [0 \<mapsto> ''x'', 1 \<mapsto> ''y'', 2 \<mapsto> ''x''], field_top := 5\<rparr>"
  let ?X = "declare_fields ?dct (inherit_fields ?bases []) ?h"
  have d: "is_dict ?dct" by (simp add: is_dict_def)
  have b: "\<forall>base \<in> set ?bases. is_dict (cls_fields base)" by (simp add: is_dict_def)
  have x: "?X = (fst ?X, snd ?X)" by simp
  have f: "fst ?X = [(''x'', Field 2 KInteger (DValue VNone)), (''y'', Field 3 KBoolean (DValue VNone)),
        (''p'', Field 4 KText (DValue VNone)), (''q'', Field 4 KText (DValue VNone))]"
    by (simp add: dict_update_def)
  have m: "bases_map ?bases ++ own_map ?dct =
      [''x'' \<mapsto> Field 2 KInteger (DValue VNone), ''y'' \<mapsto> Field 3 KBoolean (DValue VNone),
        ''p'' \<mapsto> Field 4 KText (DValue VNone), ''q'' \<mapsto> Field 4 KText (DValue VNone)]"
    by (rule ext) (simp add: bases_map_def own_map_def map_add_def)
  have u: "name_unset (heap_names ?h 4)" by (simp add: name_unset_def empty_heap_def)
  have n: "declared_name ?dct 4 = Some ''p''" by simp
  note inst = schema_inheritance [OF d b x, where i = 4 and n = "''p''" and name = "''C''"]
  from inst u n have "heap_names (snd ?X) 4 = Some ''p''" by blast
  moreover from inst m have "map_of (fst ?X) =
      [''x'' \<mapsto> Field 2 KInteger (DValue VNone), ''y'' \<mapsto> Field 3 KBoolean (DValue VNone),
        ''p'' \<mapsto> Field 4 KText (DValue VNone), ''q'' \<mapsto> Field 4 KText (DValue VNone)]"
    by simp
  ultimately show ?thesis using f by blast
qed

section \<open>Date-time fields\<close>

subsection \<open>Rendering and parsing\<close>

lemma is_digit_digit_char: "n < 10 \<Longrightarrow> is_digit (digit_char n)"
  by (simp add: is_digit_def digit_char_def)

lemma digits_all_digit: "list_all is_digit (digits n)"
proof (induction n rule: digits.induct)
  case (1 n)
  show ?case
  proof (cases "n < 10")
    case True
    then show ?thesis by (subst digits.simps) (simp add: is_digit_digit_char)
  next
    case False
    with 1 show ?thesis by (subst digits.simps) (simp add: is_digit_digit_char)
  qed
qed

lemma length_digits: "0 < w \<Longrightarrow> n < 10 ^ w \<Longrightarrow> length (digits n) \<le> w"
proof (induction n arbitrary: w rule: digits.induct)
  case (1 n)
  show ?case
  proof (cases "n < 10")
    case True
    with 1 show ?thesis by (subst digits.simps) simp
  next
    case False
    with "1.prems" obtain w' where w: "w = Suc w'"
      by (cases w) auto
    with False "1.prems" have "0 < w'"
      by (cases w') auto
    moreover have "n div 10 < 10 ^ w'"
      using "1.prems" w by (simp add: less_mult_imp_div_less mult.commute)
    ultimately have "length (digits (n div 10)) \<le> w'"
      using "1.IH" False by simp
    with False w show ?thesis by (subst digits.simps) simp
  qed
qed

lemma zeros_all_digit: "list_all is_digit (replicate k (CHR ''0''))"
  by (induction k) (simp_all add: is_digit_def)

lemma fixed_digits_zfill: "0 < w \<Longrightarrow> n < 10 ^ w \<Longrightarrow> fixed_digits w (zfill w (digits n))"
  using length_digits [of w n]
  by (simp add: fixed_digits_def zfill_def digits_all_digit zeros_all_digit)

lemma digit_val_le: "is_digit c \<Longrightarrow> digit_val c \<le> 9"
  unfolding is_digit_def digit_val_def by linarith

lemma foldl_num_bound:
  "list_all is_digit s \<Longrightarrow>
   Suc (foldl (\<lambda>a c. 10 * a + digit_val c) a s) \<le> Suc a * 10 ^ length s"
proof (induction s arbitrary: a)
  case Nil
  then show ?case by simp
next
  case (Cons c s)
  then have "Suc (foldl (\<lambda>a c. 10 * a + digit_val c) (10 * a + digit_val c) s)
      \<le> Suc (10 * a + digit_val c) * 10 ^ length s"
    by simp
  also have "\<dots> \<le> (10 * Suc a) * 10 ^ length s"
    using digit_val_le [of c] Cons.prems by (intro mult_le_mono1) simp
  finally show ?case by (simp add: algebra_simps)
qed

lemma num_val_bound: "list_all is_digit s \<Longrightarrow> num_val s < 10 ^ length s"
  using foldl_num_bound [of s 0] by (simp add: num_val_def)

lemma directive_bound: "directive lo hi s = Some n \<Longrightarrow> hi < 100 \<Longrightarrow> n < 100"
  using digit_val_le
  by (fastforce simp: directive_def split: list.splits if_splits)

lemma directive_d_bound: "directive_d s = Some n \<Longrightarrow> n < 100"
  using digit_val_le directive_bound [of 1 31 s n]
  by (fastforce simp: directive_d_def split: list.splits if_splits)

lemma directive_Y_bound: "directive_Y s = Some n \<Longrightarrow> n < 10000"
  using num_val_bound [of s]
  by (auto simp: directive_Y_def split: if_splits)

lemma strptime_date_bound:
  "strptime_date s = Some (y, m, d) \<Longrightarrow> y < 10000 \<and> m < 100 \<and> d < 100"
  by (auto simp: strptime_date_def split: option.splits prod.splits if_splits
      dest: directive_Y_bound directive_d_bound directive_bound)

lemma strptime_time_bound:
  "strptime_time s = Some (H, M, S) \<Longrightarrow> H < 100 \<and> M < 100 \<and> S < 100"
  by (auto simp: strptime_time_def split: option.splits prod.splits if_splits
      dest: directive_bound)

lemma canonical_concat:
  "fixed_digits 4 Y \<Longrightarrow> fixed_digits 2 Mo \<Longrightarrow> fixed_digits 2 D \<Longrightarrow> fixed_digits 2 H \<Longrightarrow>
   fixed_digits 2 Mi \<Longrightarrow> fixed_digits 2 S \<Longrightarrow>
   is_canonical_datetime
     ((Y @ ''-'' @ Mo @ ''-'' @ D) @ ''T'' @ (H @ '':'' @ Mi @ '':'' @ S) @ ''Z'')"
  by (simp add: is_canonical_datetime_def fixed_digits_def)

lemma render_canonical:
  "y < 10000 \<Longrightarrow> m < 100 \<Longrightarrow> d < 100 \<Longrightarrow> H < 100 \<Longrightarrow> M < 100 \<Longrightarrow> S < 100 \<Longrightarrow>
   \<exists>c. render_datetime (VDateTime y m d H M S us) = Inr (VStr c) \<and> is_canonical_datetime c"
  unfolding render_datetime_def date_isoformat_def time_isoformat_def
  using fixed_digits_zfill [of 4 y] fixed_digits_zfill [of 2 m] fixed_digits_zfill [of 2 d]
    fixed_digits_zfill [of 2 H] fixed_digits_zfill [of 2 M] fixed_digits_zfill [of 2 S]
  by (simp add: is_canonical_datetime_def fixed_digits_def)

lemma datetime_text_canonical:
  "DateTimeField_to_json (VStr s) = Inr r \<Longrightarrow> \<exists>c. r = VStr c \<and> is_canonical_datetime c"
proof -
  assume a: "DateTimeField_to_json (VStr s) = Inr r"
  then obtain y m d H M S where
    p: "strptime_datetime (rstrip_Z (before_dot s)) = Some ((y, m, d), (H, M, S))"
    and r: "render_datetime (VDateTime y m d H M S 0) = Inr r"
    by (auto simp: DateTimeField_to_json_def DateTimeField_to_python_def
        split: option.splits sum.splits prod.splits)
  from p obtain dp tp where "strptime_date dp = Some (y, m, d)" "strptime_time tp = Some (H, M, S)"
    by (auto simp: strptime_datetime_def split: option.splits prod.splits)
  then have "y < 10000 \<and> m < 100 \<and> d < 100 \<and> H < 100 \<and> M < 100 \<and> S < 100"
    using strptime_date_bound strptime_time_bound by blast
  with render_canonical [of y m d H M S 0] r show ?thesis by auto
qed








subsection \<open>Parsing what was rendered\<close>



















subsection \<open>What the parser accepts\<close>






subsection \<open>The rendered text\<close>










subsection \<open>Writing text through a date-time field\<close>




section \<open>Reading a field\<close>

text \<open>
  C3.  For every field descriptor and record, \<open>Field.__get__\<close> returns \<open>_to_python\<close> of
  the value stored under the field's name when there is one and it is not \<open>None\<close>;
  otherwise, when the default is not \<open>None\<close>, it returns the default, called first when
  it is callable; otherwise it returns \<open>None\<close>.  The stored value counts as missing when
  the key is absent and also when \<open>None\<close> is stored under it.  A plain default is
  returned as it is, a producer's value is what it returns.
\<close>

theorem field_read_contract:
  "Field_get f inst h =
     (if Mapping_get inst (field_name h f) h \<noteq> VNone
      then to_python f (Mapping_get inst (field_name h f) h) h
      else if field_default f \<noteq> DValue VNone then call_default (field_default f) h
      else (Inr VNone, h))
   \<and> Mapping_get inst (field_name h f) h =
       (case field_name h f of
          None \<Rightarrow> VNone
        | Some n \<Rightarrow> (case map_of (heap_dicts h inst) n of None \<Rightarrow> VNone | Some v \<Rightarrow> v))
   \<and> call_default (DValue d) h = (Inr d, h)
   \<and> call_default (DProducer d) h = (Inr d, h)"
  by (cases "Mapping_get inst (field_name h f) h")
     (simp_all add: Field_get.simps call_default_def Mapping_get_def)


section \<open>The arity of \<open>append\<close> and \<open>insert\<close>\<close>





section \<open>Reading a sequence view\<close>




section \<open>Defaults of composite fields\<close>

text \<open>
  C9.  \<open>DictField.__init__\<close> and \<open>ListField.__init__\<close> called without a default (or
  with \<open>None\<close>) allocate a new empty dict, or list, and install a copying callable over
  it as the field's default, so the default is never \<open>None\<close>.  Reading a field
  with such a default on a record whose slot is absent or holds \<open>None\<close> returns a
  container, not \<open>None\<close>: a newly allocated one, at an address that was unused,
  holding the items of the captured default.  Two such reads (of any two records, in
  any later state of the store) return different containers.
\<close>

theorem composite_defaults:
  "fst (DictField_init mapping name VNone h)
     = Inr (Field (field_top h) (KDict mapping) (DDictCopy (VDict (dict_top h))))
   \<and> heap_dicts (snd (DictField_init mapping name VNone h)) (dict_top h) = []
   \<and> dict_top (snd (DictField_init mapping name VNone h)) = Suc (dict_top h)
   \<and> fst (ListField_init element name VNone h)
     = Inr (Field (field_top h) (KList element) (DListCopy (VList (list_top h))))
   \<and> heap_lists (snd (ListField_init element name VNone h)) (list_top h) = []
   \<and> list_top (snd (ListField_init element name VNone h)) = Suc (list_top h)
   \<and> (Mapping_get inst (field_name h f) h = VNone \<and> field_default f = DDictCopy (VDict d) \<longrightarrow>
        Field_get f inst h = (Inr (VDict (dict_top h)), snd (new_dict (heap_dicts h d) h))
        \<and> heap_dicts (snd (Field_get f inst h)) (dict_top h) = heap_dicts h d
        \<and> dict_top (snd (Field_get f inst h)) = Suc (dict_top h))
   \<and> (Mapping_get inst (field_name h f) h = VNone \<and> field_default f = DListCopy (VList d) \<longrightarrow>
        Field_get f inst h = (Inr (VList (list_top h)), snd (new_list (heap_lists h d) h))
        \<and> heap_lists (snd (Field_get f inst h)) (list_top h) = heap_lists h d
        \<and> list_top (snd (Field_get f inst h)) = Suc (list_top h))
   \<and> (Mapping_get inst (field_name h f) h = VNone \<and> Mapping_get inst' (field_name h' f) h' = VNone
        \<and> field_default f = DDictCopy (VDict d)
        \<and> dict_top (snd (Field_get f inst h)) \<le> dict_top h' \<longrightarrow>
        fst (Field_get f inst h) \<noteq> fst (Field_get f inst' h'))
   \<and> (Mapping_get inst (field_name h f) h = VNone \<and> Mapping_get inst' (field_name h' f) h' = VNone
        \<and> field_default f = DListCopy (VList d)
        \<and> list_top (snd (Field_get f inst h)) \<le> list_top h' \<longrightarrow>
        fst (Field_get f inst h) \<noteq> fst (Field_get f inst' h'))"
  by (auto simp: DictField_init_def ListField_init_def py_bool_def new_dict_def new_list_def
      Field_init_def Field_get.simps call_default_def)

theorem composite_defaults_witness:
  "fst (DictField_init None (Some ''extra'') VNone empty_heap)
     = Inr (Field 0 (KDict None) (DDictCopy (VDict 0)))
   \<and> fst (Field_get (Field 0 (KDict None) (DDictCopy (VDict 0))) 1
          (snd (new_dict [] (snd (DictField_init None (Some ''extra'') VNone empty_heap)))))
     = Inr (VDict 2)
   \<and> dict_top (snd (Field_get (Field 0 (KDict None) (DDictCopy (VDict 0))) 1
          (snd (new_dict [] (snd (DictField_init None (Some ''extra'') VNone empty_heap))))))
     = 3"
proof -
  let ?f = "Field 0 (KDict None) (DDictCopy (VDict 0))"
  let ?h0 = "snd (DictField_init None (Some ''extra'') VNone empty_heap)"
  let ?h1 = "snd (new_dict [] ?h0)"
  let ?h2 = "snd (Field_get ?f 1 ?h1)"
  have t1: "dict_top ?h1 = 2"
    by (simp add: DictField_init_def py_bool_def new_dict_def Field_init_def empty_heap_def)
  have g1: "Mapping_get 1 (field_name ?h1 ?f) ?h1 = VNone"
    by (simp add: DictField_init_def py_bool_def new_dict_def Field_init_def empty_heap_def
        Mapping_get_def field_name_def)
  have fd: "field_default ?f = DDictCopy (VDict 0)" by simp
  note a0 = composite_defaults [where h = empty_heap and mapping = None and name = "Some ''extra''",
      THEN conjunct1]
  note a1 = composite_defaults [where h = ?h1 and f = ?f and inst = 1 and d = 0,
      THEN conjunct2, THEN conjunct2, THEN conjunct2, THEN conjunct2, THEN conjunct2, THEN conjunct2,
      THEN conjunct1]
  from a0 have f0: "fst (DictField_init None (Some ''extra'') VNone empty_heap) = Inr ?f"
    by (simp add: empty_heap_def)
  from a1 g1 fd have r1: "Field_get ?f 1 ?h1 = (Inr (VDict (dict_top ?h1)), snd (new_dict (heap_dicts ?h1 0) ?h1))"
    and t2: "dict_top ?h2 = Suc (dict_top ?h1)"
    by blast+
  from r1 have "fst (Field_get ?f 1 ?h1) = Inr (VDict (dict_top ?h1))" by simp
  with t1 have 1: "fst (Field_get ?f 1 ?h1) = Inr (VDict 2)" by simp
  from t2 t1 have 2: "dict_top ?h2 = 3" by simp
  from f0 1 2 show ?thesis by blast
qed


section \<open>Nested records\<close>

lemma from_kwargs_record:
  "from_kwargs c v h = (Inr r, h') \<Longrightarrow> \<exists>a. r = VRecord c a \<and> regular_cls c"
  by (auto simp: from_kwargs.simps Mapping_init.simps split: prod.splits sum.splits if_splits)

text \<open>
  C8 as it is stated fails: \<open>DictField._to_json\<close> tests \<open>isinstance(value, Mapping)\<close>, so
  a record of any schema is unwrapped as it is.  Here the field designates a schema \<open>A\<close>
  with a text field \<open>x\<close> and the value is a record of a schema \<open>B\<close> with a text field
  \<open>y\<close>: the code returns the data of the \<open>B\<close> record, where the statement has a new
  \<open>A\<close> record built from it and unwrapped.
\<close>

theorem nested_record_conversions_counterexample:
  "fst (to_json
          (Field 2 (KDict (Some (Cls ''A'' [] [(''x'', AField (Field 0 KText (DValue VNone)))]
                                            [(''x'', Field 0 KText (DValue VNone))]))) (DValue VNone))
          (VRecord (Cls ''B'' [] [(''y'', AField (Field 1 KText (DValue VNone)))]
                                [(''y'', Field 1 KText (DValue VNone))]) 0)
          (snd (new_dict [(''y'', VStr ''b'')]
             (snd (Field_init KText (Some ''y'') (DValue VNone)
                (snd (Field_init KText (Some ''x'') (DValue VNone) empty_heap)))))))
     = Inr (VDict 0)
   \<and> heap_dicts (snd (to_json
          (Field 2 (KDict (Some (Cls ''A'' [] [(''x'', AField (Field 0 KText (DValue VNone)))]
                                            [(''x'', Field 0 KText (DValue VNone))]))) (DValue VNone))
          (VRecord (Cls ''B'' [] [(''y'', AField (Field 1 KText (DValue VNone)))]
                                [(''y'', Field 1 KText (DValue VNone))]) 0)
          (snd (new_dict [(''y'', VStr ''b'')]
             (snd (Field_init KText (Some ''y'') (DValue VNone)
                (snd (Field_init KText (Some ''x'') (DValue VNone) empty_heap)))))))) 0
     = [(''y'', VStr ''b'')]
   \<and> fst (DictField_to_json_spec
          (Some (Cls ''A'' [] [(''x'', AField (Field 0 KText (DValue VNone)))]
                              [(''x'', Field 0 KText (DValue VNone))]))
          (VRecord (Cls ''B'' [] [(''y'', AField (Field 1 KText (DValue VNone)))]
                                [(''y'', Field 1 KText (DValue VNone))]) 0)
          (snd (new_dict [(''y'', VStr ''b'')]
             (snd (Field_init KText (Some ''y'') (DValue VNone)
                (snd (Field_init KText (Some ''x'') (DValue VNone) empty_heap)))))))
     = Inr (VDict 2)
   \<and> heap_dicts (snd (DictField_to_json_spec
          (Some (Cls ''A'' [] [(''x'', AField (Field 0 KText (DValue VNone)))]
                              [(''x'', Field 0 KText (DValue VNone))]))
          (VRecord (Cls ''B'' [] [(''y'', AField (Field 1 KText (DValue VNone)))]
                                [(''y'', Field 1 KText (DValue VNone))]) 0)
          (snd (new_dict [(''y'', VStr ''b'')]
             (snd (Field_init KText (Some ''y'') (DValue VNone)
                (snd (Field_init KText (Some ''x'') (DValue VNone) empty_heap)))))))) 2
     = [(''x'', VNone)]"
  by code_simp

text \<open>
  C8, as the code has it.  With a designated schema \<open>c\<close>, \<open>_to_python\<close> is
  \<open>c.from_kwargs(**value)\<close>: the items of the value are unpacked into a new dict and the
  constructor of \<open>c\<close> runs on it, and what it returns is a record of \<open>c\<close>.  \<open>_to_json\<close>
  returns \<open>value.unwrap()\<close>, the value's own dict, when the value is a record of any
  schema, and otherwise constructs a record of \<open>c\<close> in the same way and unwraps it; it
  agrees with the statement of the specification on every value that is not a record
  and on every record of \<open>c\<close>.  Without a designated schema both conversions return the
  value as it is.
\<close>

theorem nested_record_conversions:
  "to_python (Field i (KDict (Some c)) dv) v h = from_kwargs c v h
   \<and> from_kwargs c v h =
       (case unpack_kwargs v h of
          (Inl e, h') \<Rightarrow> (Inl e, h')
        | (Inr kwargs, h') \<Rightarrow> Mapping_init c kwargs h')
   \<and> (\<forall>r h'. from_kwargs c v h = (Inr r, h') \<longrightarrow>
         (\<exists>a. r = VRecord c a \<and> unwrap r = Inr (VDict a)))
   \<and> (regular_cls c' \<longrightarrow>
         to_json (Field i (KDict (Some c)) dv) (VRecord c' a) h = (Inr (VDict a), h))
   \<and> (\<not> is_Mapping v \<longrightarrow>
         to_json (Field i (KDict (Some c)) dv) v h =
           (case from_kwargs c v h of
              (Inl e, h') \<Rightarrow> (Inl e, h')
            | (Inr r, h') \<Rightarrow> (unwrap r, h')))
   \<and> (\<not> is_Mapping v \<or> (\<exists>a. v = VRecord c a) \<longrightarrow>
         to_json (Field i (KDict (Some c)) dv) v h = DictField_to_json_spec (Some c) v h)
   \<and> to_python (Field i (KDict None) dv) v h = (Inr v, h)
   \<and> to_json (Field i (KDict None) dv) v h = (Inr v, h)"
proof (intro conjI allI impI)
  show "to_python (Field i (KDict (Some c)) dv) v h = from_kwargs c v h"
    by (simp add: to_python.simps)
  show "from_kwargs c v h =
       (case unpack_kwargs v h of
          (Inl e, h') \<Rightarrow> (Inl e, h')
        | (Inr kwargs, h') \<Rightarrow> Mapping_init c kwargs h')"
    by (simp add: from_kwargs.simps)
  show "\<exists>a. r = VRecord c a \<and> unwrap r = Inr (VDict a)"
    if "from_kwargs c v h = (Inr r, h')" for r h'
    using from_kwargs_record [OF that] by (auto simp: unwrap_def)
  show "to_json (Field i (KDict (Some c)) dv) (VRecord c' a) h = (Inr (VDict a), h)"
    if "regular_cls c'"
    using that by (simp add: to_json.simps is_Mapping_def unwrap_def)
  show "to_json (Field i (KDict (Some c)) dv) v h =
           (case from_kwargs c v h of
              (Inl e, h') \<Rightarrow> (Inl e, h')
            | (Inr r, h') \<Rightarrow> (unwrap r, h'))"
    if "\<not> is_Mapping v"
    using that by (simp add: to_json.simps)
  show "to_json (Field i (KDict (Some c)) dv) v h = DictField_to_json_spec (Some c) v h"
    if "\<not> is_Mapping v \<or> (\<exists>a. v = VRecord c a)"
    using that by (auto simp: to_json.simps DictField_to_json_spec_def is_Mapping_def split: pyval.splits)
  show "to_python (Field i (KDict None) dv) v h = (Inr v, h)"
    by (simp add: to_python.simps)
  show "to_json (Field i (KDict None) dv) v h = (Inr v, h)"
    by (simp add: to_json.simps)
qed

theorem nested_record_conversions_witness:
  "fst (to_json
          (Field 1 (KDict (Some (Cls ''A'' [] [(''x'', AField (Field 0 KText (DValue VNone)))]
                                            [(''x'', Field 0 KText (DValue VNone))]))) (DValue VNone))
          (VDict 0)
          (snd (new_dict [(''x'', VInt 7)]
             (snd (Field_init KText (Some ''x'') (DValue VNone) empty_heap)))))
     = Inr (VDict 2)
   \<and> heap_dicts (snd (to_json
          (Field 1 (KDict (Some (Cls ''A'' [] [(''x'', AField (Field 0 KText (DValue VNone)))]
                                            [(''x'', Field 0 KText (DValue VNone))]))) (DValue VNone))
          (VDict 0)
          (snd (new_dict [(''x'', VInt 7)]
             (snd (Field_init KText (Some ''x'') (DValue VNone) empty_heap)))))) 2
     = [(''x'', VStr ''7'')]
   \<and> fst (to_json
          (Field 1 (KDict (Some (Cls ''A'' [] [(''x'', AField (Field 0 KText (DValue VNone)))]
                                            [(''x'', Field 0 KText (DValue VNone))]))) (DValue VNone))
          (VRecord (Cls ''A'' [] [(''x'', AField (Field 0 KText (DValue VNone)))]
                                [(''x'', Field 0 KText (DValue VNone))]) 0)
          (snd (new_dict [(''x'', VInt 7)]
             (snd (Field_init KText (Some ''x'') (DValue VNone) empty_heap)))))
     = Inr (VDict 0)"
proof -
  let ?A = "Cls ''A'' [] [(''x'', AField (Field 0 KText (DValue VNone)))]
                         [(''x'', Field 0 KText (DValue VNone))]"
  let ?f = "Field 1 (KDict (Some ?A)) (DValue VNone)"
  let ?h = "snd (new_dict [(''x'', VInt 7)] (snd (Field_init KText (Some ''x'') (DValue VNone) empty_heap)))"
  have n: "\<not> is_Mapping (VDict 0)" by (simp add: is_Mapping_def)
  have k: "fst (from_kwargs ?A (VDict 0) ?h) = Inr (VRecord ?A 2)"
    by code_simp
  have d: "heap_dicts (snd (from_kwargs ?A (VDict 0) ?h)) 2 = [(''x'', VStr ''7'')]"
    by code_simp
  have r: "regular_cls ?A" by code_simp
  note inst = nested_record_conversions [where i = 1 and c = ?A and dv = "DValue VNone" and h = ?h
      and c' = ?A and a = 0]
  from inst [where v = "VDict 0"] n
  have "to_json ?f (VDict 0) ?h =
          (case from_kwargs ?A (VDict 0) ?h of (Inl e, h') \<Rightarrow> (Inl e, h') | (Inr r, h') \<Rightarrow> (unwrap r, h'))"
    by blast
  with k d r have 1: "fst (to_json ?f (VDict 0) ?h) = Inr (VDict 2)"
    and 2: "heap_dicts (snd (to_json ?f (VDict 0) ?h)) 2 = [(''x'', VStr ''7'')]"
    by (auto simp: unwrap_def split: prod.splits sum.splits)
  from inst [where v = VNone] r have 3: "fst (to_json ?f (VRecord ?A 0) ?h) = Inr (VDict 0)"
    by simp
  from 1 2 3 show ?thesis by simp
qed


end
